theory Spec2Isabelle
  imports Complex_Main "HOL-Library.Word" "HOL-Library.Signed_Division"
begin

section \<open>Fan controller for the IT8613E: a shallow embedding of fancontrol.cpp\<close>

text \<open>
  Conventions of the embedding.
  \<^item> In the control loop a C++ \<open>double\<close> is a \<open>real\<close>: finite values with exact
    arithmetic. The PID step is given a second time on IEEE values, with the infinities
    and NaN (\<open>calculate_new_pwm_ieee\<close>); the two agree whenever no operation leaves the
    range of a double. Rounding of results inside that range and the sign of zero are not
    modelled.
  \<^item> A C++ \<open>int\<close> is an \<open>int\<close>; signed overflow (undefined in C++) is outside the model.
    Division and remainder truncate towards zero (\<open>sdiv\<close>, \<open>smod\<close>) and fault on a zero
    divisor.
  \<^item> \<open>uint8_t\<close> and \<open>uint16_t\<close> are \<open>8 word\<close> and \<open>16 word\<close>; conversions to them wrap.
  \<^item> An array read or write outside the allocated block is a fault that ends the run.
  \<^item> \<open>printf\<close> output and the Graphite telemetry are not modelled: they read the
    control state and never write it.
\<close>

subsection \<open>Configuration (the file-scope variables set from the command line)\<close>

record config =
  setpoint :: int
  pwminit :: int
  interval :: int
  overheat :: int
  pwmmin :: int
  kp :: real
  ki :: real
  imax :: real
  kd :: real
  cputemp_max_values :: int

definition default_config :: config where
  "default_config =
     \<lparr> setpoint = 37, pwminit = 128, interval = 10, overheat = 45, pwmmin = 80,
       kp = 50, ki = 1 / 2, imax = 255, kd = 0, cputemp_max_values = 10 \<rparr>"

definition pwmmax :: int where
  "pwmmax = 255"

definition port :: "8 word" where
  "port = 0x2e"

subsection \<open>The PID step: \<open>calculate_new_pwm\<close>\<close>

text \<open>\<open>static_cast<int>\<close> of a double drops the fractional part (rounds towards zero).\<close>

definition static_cast_int :: "real \<Rightarrow> int" where
  "static_cast_int x = (if 0 \<le> x then \<lfloor>x\<rfloor> else \<lceil>x\<rceil>)"

text \<open>
  The two reference parameters \<open>integral\<close> and \<open>prev_error\<close> are passed in and returned:
  the result is \<open>(newPWM, integral, prev_error)\<close>.
\<close>

definition calculate_new_pwm ::
  "config \<Rightarrow> real \<Rightarrow> real \<Rightarrow> real \<Rightarrow> real \<Rightarrow> int \<times> real \<times> real" where
  "calculate_new_pwm cfg error timediff integral prev_error =
     (let integral1 = integral + error * timediff;
          integral2 = (if integral1 > imax cfg then imax cfg
                       else if integral1 < - imax cfg then - imax cfg
                       else integral1);
          derivative = (error - prev_error) / timediff;
          newPWM_double = real_of_int (pwminit cfg) + kp cfg * error
                          + ki cfg * integral2 + kd cfg * derivative;
          newPWM_clamped = (if newPWM_double > real_of_int pwmmax then real_of_int pwmmax
                            else if newPWM_double < real_of_int (pwmmin cfg)
                                 then real_of_int (pwmmin cfg)
                            else newPWM_double)
      in (static_cast_int newPWM_clamped, integral2, error))"

text \<open>
  A sequence of PID steps, each an \<open>(error, timediff)\<close> pair, threaded through the retained
  state; the result lists what every step returned.
\<close>

fun pid_steps ::
  "config \<Rightarrow> real \<Rightarrow> real \<Rightarrow> (real \<times> real) list \<Rightarrow> (int \<times> real \<times> real) list" where
  "pid_steps cfg integral prev_error [] = []"
| "pid_steps cfg integral prev_error ((error, timediff) # rest) =
     (case calculate_new_pwm cfg error timediff integral prev_error of
        (newPWM, integral', prev_error') \<Rightarrow>
          (newPWM, integral', prev_error') # pid_steps cfg integral' prev_error' rest)"

fun all_positive_dt :: "(real \<times> real) list \<Rightarrow> bool" where
  "all_positive_dt [] = True"
| "all_positive_dt ((error, timediff) # rest) = (0 < timediff \<and> all_positive_dt rest)"

fun all_integral_within :: "real \<Rightarrow> (int \<times> real \<times> real) list \<Rightarrow> bool" where
  "all_integral_within b [] = True"
| "all_integral_within b ((newPWM, integral, prev_error) # rest) =
     (- b \<le> integral \<and> integral \<le> b \<and> all_integral_within b rest)"

subsection \<open>The PID step on IEEE doubles\<close>

text \<open>
  A double with its special values. The result of an operation on finite values is the
  exact result when that lies within the range of a double and an infinity beyond it.
  Operations on the special values follow IEEE 754: NaN propagates,
  \<open>inf - inf\<close>, \<open>0 * inf\<close>, \<open>0 / 0\<close> and \<open>inf / inf\<close> are NaN, and every comparison
  with NaN is false.
\<close>

datatype double = Finite real | PosInf | NegInf | NaN

definition DBL_MAX :: real where
  "DBL_MAX = (2 - 1 / 2 ^ 52) * 2 ^ 1023"

definition to_double :: "real \<Rightarrow> double" where
  "to_double x = (if x > DBL_MAX then PosInf else if x < - DBL_MAX then NegInf else Finite x)"

fun dneg :: "double \<Rightarrow> double" where
  "dneg (Finite a) = Finite (- a)"
| "dneg PosInf = NegInf"
| "dneg NegInf = PosInf"
| "dneg NaN = NaN"

fun dadd :: "double \<Rightarrow> double \<Rightarrow> double" where
  "dadd (Finite a) (Finite b) = to_double (a + b)"
| "dadd NaN y = NaN"
| "dadd x NaN = NaN"
| "dadd PosInf NegInf = NaN"
| "dadd NegInf PosInf = NaN"
| "dadd PosInf y = PosInf"
| "dadd x PosInf = PosInf"
| "dadd NegInf y = NegInf"
| "dadd x NegInf = NegInf"

definition dsub :: "double \<Rightarrow> double \<Rightarrow> double" where
  "dsub x y = dadd x (dneg y)"

fun dmul :: "double \<Rightarrow> double \<Rightarrow> double" where
  "dmul (Finite a) (Finite b) = to_double (a * b)"
| "dmul NaN y = NaN"
| "dmul x NaN = NaN"
| "dmul (Finite a) y =
     (if a = 0 then NaN else if 0 < a then y else dneg y)"
| "dmul x (Finite b) =
     (if b = 0 then NaN else if 0 < b then x else dneg x)"
| "dmul PosInf y = y"
| "dmul NegInf y = dneg y"

fun ddiv :: "double \<Rightarrow> double \<Rightarrow> double" where
  "ddiv (Finite a) (Finite b) =
     (if b = 0 then (if a = 0 then NaN else if 0 < a then PosInf else NegInf)
      else to_double (a / b))"
| "ddiv NaN y = NaN"
| "ddiv x NaN = NaN"
| "ddiv (Finite a) y = Finite 0"
| "ddiv x (Finite b) = (if 0 \<le> b then x else dneg x)"
| "ddiv PosInf y = NaN"
| "ddiv NegInf y = NaN"

fun dless :: "double \<Rightarrow> double \<Rightarrow> bool" where
  "dless (Finite a) (Finite b) = (a < b)"
| "dless NaN y = False"
| "dless x NaN = False"
| "dless PosInf y = False"
| "dless x NegInf = False"
| "dless NegInf y = True"
| "dless x PosInf = True"

text \<open>
  Converting a double to \<open>int\<close> is defined for finite values only; for NaN and the
  infinities the C++ conversion is undefined (\<open>None\<close>).
\<close>

definition static_cast_int_ieee :: "double \<Rightarrow> int option" where
  "static_cast_int_ieee x = (case x of Finite a \<Rightarrow> Some (static_cast_int a) | _ \<Rightarrow> None)"

text \<open>\<open>calculate_new_pwm\<close>, statement by statement, on these values.\<close>

definition calculate_new_pwm_ieee ::
  "config \<Rightarrow> double \<Rightarrow> double \<Rightarrow> double \<Rightarrow> double \<Rightarrow> int option \<times> double \<times> double" where
  "calculate_new_pwm_ieee cfg error timediff integral prev_error =
     (let integral1 = dadd integral (dmul error timediff);
          integral2 = (if dless (Finite (imax cfg)) integral1 then Finite (imax cfg)
                       else if dless integral1 (dneg (Finite (imax cfg)))
                            then dneg (Finite (imax cfg))
                       else integral1);
          derivative = ddiv (dsub error prev_error) timediff;
          newPWM_double =
            dadd (dadd (dadd (Finite (real_of_int (pwminit cfg)))
                             (dmul (Finite (kp cfg)) error))
                       (dmul (Finite (ki cfg)) integral2))
                 (dmul (Finite (kd cfg)) derivative);
          newPWM_clamped = (if dless (Finite (real_of_int pwmmax)) newPWM_double
                            then Finite (real_of_int pwmmax)
                            else if dless newPWM_double (Finite (real_of_int (pwmmin cfg)))
                                 then Finite (real_of_int (pwmmin cfg))
                            else newPWM_double)
      in (static_cast_int_ieee newPWM_clamped, integral2, error))"

text \<open>
  No operation of \<open>calculate_new_pwm\<close> leaves the range of a double and the time
  difference is not zero.
\<close>

definition in_double_range :: "real \<Rightarrow> bool" where
  "in_double_range x = (- DBL_MAX \<le> x \<and> x \<le> DBL_MAX)"

definition no_overflow :: "config \<Rightarrow> real \<Rightarrow> real \<Rightarrow> real \<Rightarrow> real \<Rightarrow> bool" where
  "no_overflow cfg error timediff integral prev_error =
     (let integral1 = integral + error * timediff;
          integral2 = (if integral1 > imax cfg then imax cfg
                       else if integral1 < - imax cfg then - imax cfg
                       else integral1);
          derivative = (error - prev_error) / timediff
      in timediff \<noteq> 0
         \<and> in_double_range (error * timediff)
         \<and> in_double_range integral1
         \<and> in_double_range (error - prev_error)
         \<and> in_double_range derivative
         \<and> in_double_range (kp cfg * error)
         \<and> in_double_range (real_of_int (pwminit cfg) + kp cfg * error)
         \<and> in_double_range (ki cfg * integral2)
         \<and> in_double_range (real_of_int (pwminit cfg) + kp cfg * error + ki cfg * integral2)
         \<and> in_double_range (kd cfg * derivative)
         \<and> in_double_range (real_of_int (pwminit cfg) + kp cfg * error + ki cfg * integral2
                             + kd cfg * derivative))"

subsection \<open>Port I/O: \<open>iowrite\<close>, \<open>ioread\<close>, \<open>ecwrite\<close>\<close>

text \<open>
  The hardware is seen through the sequence of port accesses and sleeps the program
  performs, in program order. \<open>Outb v p\<close> is \<open>outb(v, p)\<close>; \<open>Inb p\<close> is \<open>inb(p)\<close>, whose
  result is an input of the model.
\<close>

datatype io_event = Outb "8 word" "16 word" | Inb "16 word" | Sleep int

definition iowrite :: "8 word \<Rightarrow> 8 word \<Rightarrow> io_event list" where
  "iowrite reg val = [Outb reg (ucast port), Outb val (ucast port + 1)]"

definition ioread :: "8 word \<Rightarrow> io_event list" where
  "ioread reg = [Outb reg (ucast port), Inb (ucast port + 1)]"

definition ecwrite :: "16 word \<Rightarrow> 8 word \<Rightarrow> 8 word \<Rightarrow> io_event list" where
  "ecwrite ecbar reg val = [Outb reg (ecbar + 5), Outb val (ecbar + 6)]"

subsection \<open>Reading a probe: \<open>popen\<close>, \<open>fgets\<close>, \<open>atoi\<close>\<close>

text \<open>
  What one probe command gives: \<open>popen\<close> returns no pipe, or a pipe carrying the command's
  standard output.
\<close>

datatype probe = PopenFailed | Output string

text \<open>
  \<open>fgets(buf, n, pipe)\<close> in terms of the buffer contents: at end of file with nothing
  read it returns NULL and leaves the buffer as it was; otherwise the buffer holds the
  first line, newline included, cut to \<open>n - 1\<close> characters. The source ignores the
  return value.
\<close>

definition newline :: char where
  "newline = CHR 0x0A"

definition first_line :: "string \<Rightarrow> string" where
  "first_line out =
     takeWhile (\<lambda>c. c \<noteq> newline) out @ take 1 (dropWhile (\<lambda>c. c \<noteq> newline) out)"

definition fgets :: "nat \<Rightarrow> string \<Rightarrow> string \<Rightarrow> string" where
  "fgets n out buf = (if out = [] then buf else take (n - 1) (first_line out))"

definition isspace :: "char \<Rightarrow> bool" where
  "isspace c = (c = CHR '' '' \<or> (9 \<le> (of_char c :: nat) \<and> (of_char c :: nat) \<le> 13))"

definition isdigit :: "char \<Rightarrow> bool" where
  "isdigit c = (48 \<le> (of_char c :: nat) \<and> (of_char c :: nat) \<le> 57)"

fun atoi_digits :: "int \<Rightarrow> string \<Rightarrow> int" where
  "atoi_digits acc [] = acc"
| "atoi_digits acc (c # cs) =
     (if isdigit c then atoi_digits (acc * 10 + (int (of_char c) - 48)) cs else acc)"

text \<open>
  The C library's \<open>atoi\<close>: leading white space, an optional sign, then decimal digits up
  to the first other character; 0 when there is no digit. Digit strings beyond the range
  of \<open>int\<close> are outside the model.
\<close>

definition atoi :: "string \<Rightarrow> int" where
  "atoi s =
     (case dropWhile isspace s of
        [] \<Rightarrow> 0
      | c # cs \<Rightarrow>
          if c = CHR ''-'' then - atoi_digits 0 cs
          else if c = CHR ''+'' then atoi_digits 0 cs
          else atoi_digits 0 (c # cs))"

subsection \<open>The drive loop of \<open>main\<close>\<close>

text \<open>
  The \<open>for\<close> loop over the drives, on the pair of \<open>maxtemp\<close> and the contents of
  \<open>tempstring\<close>. A drive whose \<open>popen\<close> fails is skipped by \<open>continue\<close>.
\<close>

fun probe_drives :: "probe list \<Rightarrow> int \<Rightarrow> string \<Rightarrow> int \<times> string" where
  "probe_drives [] maxtemp tempstring = (maxtemp, tempstring)"
| "probe_drives (PopenFailed # rest) maxtemp tempstring =
     probe_drives rest maxtemp tempstring"
| "probe_drives (Output out # rest) maxtemp tempstring =
     (let tempstring' = fgets 20 out tempstring;
          temp = atoi tempstring'
      in probe_drives rest (if temp > maxtemp then temp else maxtemp) tempstring')"

text \<open>The values the local \<open>temp\<close> takes during that loop, in order.\<close>

fun drive_temps :: "probe list \<Rightarrow> string \<Rightarrow> int list" where
  "drive_temps [] tempstring = []"
| "drive_temps (PopenFailed # rest) tempstring = drive_temps rest tempstring"
| "drive_temps (Output out # rest) tempstring =
     atoi (fgets 20 out tempstring) # drive_temps rest (fgets 20 out tempstring)"

text \<open>
  The readings parsed from the drives' own outputs: one per drive whose pipe opens, from
  the first line cut to the 19 characters \<open>tempstring\<close> can hold.
\<close>

fun drive_readings :: "probe list \<Rightarrow> int list" where
  "drive_readings [] = []"
| "drive_readings (PopenFailed # rest) = drive_readings rest"
| "drive_readings (Output out # rest) = atoi (take 19 (first_line out)) # drive_readings rest"

subsection \<open>The rolling average of the CPU temperature\<close>

datatype fault = OutOfBounds | RemainderByZero | DivisionByZero

record rolling =
  cputemp_values :: "int list"
  cputemp_index :: int
  cputemp_count :: int
  cputemp_sum :: int
  cpu_avg_temp :: int

text \<open>
  \<open>calloc(cputemp_max_values, sizeof(int))\<close> gives a zeroed block of that many ints (for
  a positive count the allocation is taken to succeed). A negative count converts to a
  size no allocation can satisfy and a count of 0 gives no element, so in both cases no
  index is inside the block.
\<close>

definition rolling_init :: "config \<Rightarrow> rolling" where
  "rolling_init cfg =
     \<lparr> cputemp_values = replicate (nat (cputemp_max_values cfg)) 0,
       cputemp_index = 0, cputemp_count = 0, cputemp_sum = 0, cpu_avg_temp = 0 \<rparr>"

definition in_block :: "int list \<Rightarrow> int \<Rightarrow> bool" where
  "in_block xs i = (0 \<le> i \<and> i < int (length xs))"

text \<open>The circular index update and the average (the two statements after the branch).\<close>

definition advance_and_average :: "config \<Rightarrow> rolling \<Rightarrow> fault + rolling" where
  "advance_and_average cfg r =
     (if cputemp_max_values cfg = 0 then Inl RemainderByZero
      else if cputemp_count r = 0 then Inl DivisionByZero
      else Inr (r\<lparr> cputemp_index := (cputemp_index r + 1) smod cputemp_max_values cfg,
                   cpu_avg_temp := cputemp_sum r sdiv cputemp_count r \<rparr>))"

definition rolling_insert :: "config \<Rightarrow> int \<Rightarrow> rolling \<Rightarrow> fault + rolling" where
  "rolling_insert cfg cputemp r =
     (if cputemp_count r < cputemp_max_values cfg then
        if \<not> in_block (cputemp_values r) (cputemp_count r) then Inl OutOfBounds
        else advance_and_average cfg
               (r\<lparr> cputemp_sum := cputemp_sum r + cputemp,
                   cputemp_values := (cputemp_values r)[nat (cputemp_count r) := cputemp],
                   cputemp_count := cputemp_count r + 1 \<rparr>)
      else
        if \<not> in_block (cputemp_values r) (cputemp_index r) then Inl OutOfBounds
        else advance_and_average cfg
               (r\<lparr> cputemp_sum :=
                     cputemp_sum r - cputemp_values r ! nat (cputemp_index r) + cputemp,
                   cputemp_values := (cputemp_values r)[nat (cputemp_index r) := cputemp] \<rparr>))"

text \<open>Inserting a sequence of samples, oldest first; a fault ends the run.\<close>

fun insert_all :: "config \<Rightarrow> int list \<Rightarrow> rolling \<Rightarrow> fault + rolling" where
  "insert_all cfg [] r = Inr r"
| "insert_all cfg (x # xs) r =
     (case rolling_insert cfg x r of Inl f \<Rightarrow> Inl f | Inr r' \<Rightarrow> insert_all cfg xs r')"

text \<open>
  The CPU part of an iteration: when the probe's pipe opens, the reading goes into the
  rolling buffer and the average less 20 competes with \<open>maxtemp\<close>; when it does not, the
  whole block is skipped.
\<close>

definition cpu_step ::
  "config \<Rightarrow> probe \<Rightarrow> string \<Rightarrow> rolling \<Rightarrow> int \<Rightarrow> fault + (rolling \<times> int)" where
  "cpu_step cfg cpupipe cputempstring r maxtemp =
     (case cpupipe of
        PopenFailed \<Rightarrow> Inr (r, maxtemp)
      | Output out \<Rightarrow>
          (case rolling_insert cfg (atoi (fgets 10 out cputempstring)) r of
             Inl f \<Rightarrow> Inl f
           | Inr r' \<Rightarrow>
               Inr (r', if cpu_avg_temp r' - 20 > maxtemp then cpu_avg_temp r' - 20
                        else maxtemp)))"

subsection \<open>The state of \<open>main\<close> and one iteration of its loop\<close>

record timespec =
  tv_sec :: int
  tv_nsec :: int

definition timediff_of :: "timespec \<Rightarrow> timespec \<Rightarrow> real" where
  "timediff_of curtime lasttime =
     real_of_int (1000000000 * (tv_sec curtime - tv_sec lasttime)
                  + (tv_nsec curtime - tv_nsec lasttime)) / 1000000000"

record main_state =
  ecbar :: "16 word"
  pwm :: "8 word"
  integral :: real
  prev_error :: real
  maxtemp :: int
  lasttime :: timespec
  cpu :: rolling
  io_log :: "io_event list"

text \<open>
  What one iteration reads from outside: the probes' outputs, the clock, and the bytes
  the two uninitialised text buffers hold when they are declared.
\<close>

record iteration_input =
  drive_probes :: "probe list"
  tempstring_initial :: string
  cpu_probe :: probe
  cputempstring_initial :: string
  curtime :: timespec

text \<open>
  Start-up after argument parsing: chip initialisation, EC base address from the two
  bytes read at 0x60 and 0x61, first PWM write, software operation, first clock reading.
\<close>

definition startup :: "config \<Rightarrow> 8 word \<Rightarrow> 8 word \<Rightarrow> timespec \<Rightarrow> main_state" where
  "startup cfg hi lo now =
     (let ecbar0 = push_bit 8 (ucast hi) + ucast lo;
          pwm0 = word_of_int (pwminit cfg)
      in \<lparr> ecbar = ecbar0, pwm = pwm0, integral = 0, prev_error = 0, maxtemp = 0,
            lasttime = now, cpu = rolling_init cfg,
            io_log =
              [Outb 0x87 (ucast port), Outb 0x01 (ucast port),
               Outb 0x55 (ucast port), Outb 0x55 (ucast port)]
              @ iowrite 0x07 0x04 @ iowrite 0x30 0x01
              @ ioread 0x60 @ ioread 0x61
              @ ecwrite ecbar0 0x6b pwm0 @ ecwrite ecbar0 0x73 pwm0
              @ ecwrite ecbar0 0x16 0x00 @ ecwrite ecbar0 0x17 0x00 \<rparr>)"

definition loop_iteration :: "config \<Rightarrow> iteration_input \<Rightarrow> main_state \<Rightarrow> fault + main_state" where
  "loop_iteration cfg inp s =
     (case cpu_step cfg (cpu_probe inp) (cputempstring_initial inp) (cpu s)
             (fst (probe_drives (drive_probes inp) 0 (tempstring_initial inp))) of
        Inl f \<Rightarrow> Inl f
      | Inr (cpu', maxtemp') \<Rightarrow>
          (let s1 = s\<lparr> maxtemp := maxtemp', cpu := cpu' \<rparr>;
               timediff = timediff_of (curtime inp) (lasttime s1)
           in if timediff = 0
              then Inr (s1\<lparr> io_log := io_log s1 @ [Sleep (interval cfg)] \<rparr>)
              else
                (case calculate_new_pwm cfg (real_of_int (maxtemp' - setpoint cfg)) timediff
                        (integral s1) (prev_error s1) of
                   (newPWM, integral', prev_error') \<Rightarrow>
                     Inr (s1\<lparr> lasttime := curtime inp,
                              integral := integral',
                              prev_error := prev_error',
                              pwm := word_of_int newPWM,
                              io_log := io_log s1
                                @ ecwrite (ecbar s1) 0x6b (word_of_int newPWM)
                                @ ecwrite (ecbar s1) 0x73 (word_of_int newPWM)
                                @ [Sleep (interval cfg)] \<rparr>))))"

fun main_loop :: "config \<Rightarrow> iteration_input list \<Rightarrow> main_state \<Rightarrow> fault + main_state" where
  "main_loop cfg [] s = Inr s"
| "main_loop cfg (inp # rest) s =
     (case loop_iteration cfg inp s of Inl f \<Rightarrow> Inl f | Inr s' \<Rightarrow> main_loop cfg rest s')"

text \<open>The program from start-up through the iterations fed by the given inputs.\<close>

definition run_main ::
  "config \<Rightarrow> 8 word \<Rightarrow> 8 word \<Rightarrow> timespec \<Rightarrow> iteration_input list \<Rightarrow> fault + main_state" where
  "run_main cfg hi lo now inps = main_loop cfg inps (startup cfg hi lo now)"

text \<open>
  The invariant of the rolling buffer after the samples \<open>xs\<close> (oldest first) have been
  inserted: while filling, the block holds the samples followed by the zeros \<open>calloc\<close>
  left; once full, reading the block circularly from \<open>cputemp_index\<close> gives the most
  recent samples, oldest first.
\<close>

definition rolling_inv :: "config \<Rightarrow> int list \<Rightarrow> rolling \<Rightarrow> bool" where
  "rolling_inv cfg xs r =
     (length (cputemp_values r) = nat (cputemp_max_values cfg)
      \<and> cputemp_sum r = sum_list (cputemp_values r)
      \<and> cputemp_count r = min (int (length xs)) (cputemp_max_values cfg)
      \<and> cputemp_index r = int (length xs) mod cputemp_max_values cfg
      \<and> (if int (length xs) \<le> cputemp_max_values cfg
          then cputemp_values r
               = xs @ replicate (nat (cputemp_max_values cfg) - length xs) 0
          else rotate (nat (cputemp_index r)) (cputemp_values r)
               = drop (length xs - nat (cputemp_max_values cfg)) xs)
      \<and> (if xs = [] then cpu_avg_temp r = 0
          else cpu_avg_temp r = cputemp_sum r sdiv cputemp_count r))"

subsection \<open>Scenario data\<close>

text \<open>
  What an iteration reports as \<open>fancontrol.maxtemp\<close> and \<open>fancontrol.cpu_avg_temp\<close>:
  the effective control temperature and the rolling CPU average.
\<close>

definition aggregate_view :: "main_state \<Rightarrow> int \<times> int" where
  "aggregate_view s = (maxtemp s, cpu_avg_temp (cpu s))"

text \<open>
  Scenario 1: default configuration, one drive reporting 40, the CPU reporting 50 into the
  empty rolling buffer, ten seconds after start-up. The EC base address read at start-up
  is taken to be 0x0a30.
\<close>

definition scenario1_state :: main_state where
  "scenario1_state = startup default_config 0x0a 0x30 \<lparr> tv_sec = 100, tv_nsec = 0 \<rparr>"

definition scenario1_input :: iteration_input where
  "scenario1_input =
     \<lparr> drive_probes = [Output (''40'' @ [newline])], tempstring_initial = [],
       cpu_probe = Output (''50'' @ [newline]), cputempstring_initial = [],
       curtime = \<lparr> tv_sec = 110, tv_nsec = 0 \<rparr> \<rparr>"

definition scenario1_result :: main_state where
  "scenario1_result =
     scenario1_state
       \<lparr> pwm := 255, integral := 30, prev_error := 3, maxtemp := 40,
         lasttime := \<lparr> tv_sec = 110, tv_nsec = 0 \<rparr>,
         cpu := \<lparr> cputemp_values = [50, 0, 0, 0, 0, 0, 0, 0, 0, 0], cputemp_index = 1,
                  cputemp_count = 1, cputemp_sum = 50, cpu_avg_temp = 50 \<rparr>,
         io_log := io_log scenario1_state
                   @ ecwrite 0x0a30 0x6b 255 @ ecwrite 0x0a30 0x73 255 @ [Sleep 10] \<rparr>"

text \<open>An iteration whose clock reading equals the one taken at start-up.\<close>

definition same_instant_input :: iteration_input where
  "same_instant_input = scenario1_input\<lparr> curtime := \<lparr> tv_sec = 100, tv_nsec = 0 \<rparr> \<rparr>"

text \<open>A later iteration: the drive reports 25 and the CPU probe's pipe cannot be opened.\<close>

definition cpu_pipe_fails_input :: iteration_input where
  "cpu_pipe_fails_input =
     \<lparr> drive_probes = [Output (''25'' @ [newline])], tempstring_initial = [],
       cpu_probe = PopenFailed, cputempstring_initial = [],
       curtime = \<lparr> tv_sec = 120, tv_nsec = 0 \<rparr> \<rparr>"

text \<open>
  An iteration in which the only drive's command prints nothing, while the bytes in the
  uninitialised \<open>tempstring\<close> read as 45.
\<close>

definition silent_drive_input :: iteration_input where
  "silent_drive_input =
     \<lparr> drive_probes = [Output []], tempstring_initial = ''45'' @ [newline],
       cpu_probe = Output (''50'' @ [newline]), cputempstring_initial = [],
       curtime = \<lparr> tv_sec = 110, tv_nsec = 0 \<rparr> \<rparr>"

section \<open>Properties of the PID step\<close>

lemma static_cast_int_between:
  assumes "real_of_int lo \<le> x" and "x \<le> real_of_int hi"
  shows "lo \<le> static_cast_int x \<and> static_cast_int x \<le> hi"
proof (cases "0 \<le> x")
  case True
  have "lo \<le> \<lfloor>x\<rfloor>" using assms(1) by (simp add: le_floor_iff)
  moreover have "\<lfloor>x\<rfloor> \<le> hi" using assms(2) by (simp add: floor_le_iff)
  ultimately show ?thesis using True by (simp add: static_cast_int_def)
next
  case False
  have "lo \<le> \<lceil>x\<rceil>" using assms(1) by (simp add: le_ceiling_iff)
  moreover have "\<lceil>x\<rceil> \<le> hi" using assms(2) by (simp add: ceiling_le_iff)
  ultimately show ?thesis using False by (simp add: static_cast_int_def)
qed

lemma calculate_new_pwm_integral:
  assumes "0 \<le> imax cfg"
    and "calculate_new_pwm cfg error timediff i0 e0 = (newPWM, i', e')"
  shows "- imax cfg \<le> i' \<and> i' \<le> imax cfg"
  using assms by (auto simp: calculate_new_pwm_def Let_def split: if_splits)

subsection \<open>The PID step on IEEE doubles\<close>

lemma DBL_MAX_bounds: "10 ^ 6 \<le> DBL_MAX" "DBL_MAX \<le> 2 * 10 ^ 308"
  by (simp_all add: DBL_MAX_def)

lemma to_double_small: "\<bar>x\<bar> \<le> 10 ^ 6 \<Longrightarrow> to_double x = Finite x"
  using DBL_MAX_bounds(1) by (auto simp: to_double_def)

lemma to_double_large: "2 * 10 ^ 308 < x \<Longrightarrow> to_double x = PosInf"
  using DBL_MAX_bounds(2) by (auto simp: to_double_def)

lemma to_double_large_neg: "x < - (2 * 10 ^ 308) \<Longrightarrow> to_double x = NegInf"
  using DBL_MAX_bounds by (auto simp: to_double_def)

lemma to_double_cases:
  "to_double x = PosInf \<or> to_double x = NegInf \<or> to_double x = Finite x"
  by (simp add: to_double_def)

lemma clamp_ieee_defined:
  assumes "lo \<le> hi"
    and "static_cast_int_ieee
           (if dless (Finite (real_of_int hi)) x then Finite (real_of_int hi)
            else if dless x (Finite (real_of_int lo)) then Finite (real_of_int lo)
            else x) = Some n"
  shows "lo \<le> n \<and> n \<le> hi"
proof (cases x)
  case (Finite a)
  then obtain c where "n = static_cast_int c" and "real_of_int lo \<le> c" and "c \<le> real_of_int hi"
    using assms by (auto simp: static_cast_int_ieee_def split: if_splits)
  then show ?thesis using static_cast_int_between by blast
next
  case PosInf
  then have "n = static_cast_int (real_of_int hi)"
    using assms(2) by (simp add: static_cast_int_ieee_def)
  then show ?thesis using assms(1) by (simp add: static_cast_int_def)
next
  case NegInf
  then have "n = static_cast_int (real_of_int lo)"
    using assms(2) by (simp add: static_cast_int_ieee_def)
  then show ?thesis using assms(1) by (simp add: static_cast_int_def)
next
  case NaN
  then show ?thesis using assms(2) by (simp add: static_cast_int_ieee_def)
qed

lemma calculate_new_pwm_ieee_range:
  assumes "pwmmin cfg \<le> pwmmax"
    and "calculate_new_pwm_ieee cfg error timediff i0 e0 = (Some n, i', e')"
  shows "pwmmin cfg \<le> n \<and> n \<le> pwmmax"
proof -
  obtain x where
    "static_cast_int_ieee
       (if dless (Finite (real_of_int pwmmax)) x then Finite (real_of_int pwmmax)
        else if dless x (Finite (real_of_int (pwmmin cfg)))
             then Finite (real_of_int (pwmmin cfg))
        else x) = Some n"
    using assms(2) unfolding calculate_new_pwm_ieee_def Let_def by blast
  then show ?thesis using clamp_ieee_defined [OF assms(1)] by blast
qed


lemma to_double_in_range: "in_double_range x \<Longrightarrow> to_double x = Finite x"
  by (auto simp: in_double_range_def to_double_def)

lemma calculate_new_pwm_ieee_agrees:
  assumes "no_overflow cfg error timediff i0 e0"
  shows "calculate_new_pwm_ieee cfg (Finite error) (Finite timediff) (Finite i0) (Finite e0)
         = (case calculate_new_pwm cfg error timediff i0 e0 of
              (newPWM, i', e') \<Rightarrow> (Some newPWM, Finite i', Finite e'))"
proof -
  define integral1 where "integral1 = i0 + error * timediff"
  define integral2 where
    "integral2 = (if integral1 > imax cfg then imax cfg
                  else if integral1 < - imax cfg then - imax cfg else integral1)"
  define derivative where "derivative = (error - e0) / timediff"
  define raw where
    "raw = real_of_int (pwminit cfg) + kp cfg * error + ki cfg * integral2
           + kd cfg * derivative"
  have "timediff \<noteq> 0
         \<and> in_double_range (error * timediff)
         \<and> in_double_range integral1
         \<and> in_double_range (error - e0)
         \<and> in_double_range derivative
         \<and> in_double_range (kp cfg * error)
         \<and> in_double_range (real_of_int (pwminit cfg) + kp cfg * error)
         \<and> in_double_range (ki cfg * integral2)
         \<and> in_double_range (real_of_int (pwminit cfg) + kp cfg * error + ki cfg * integral2)
         \<and> in_double_range (kd cfg * derivative)
         \<and> in_double_range raw"
    using assms
    unfolding no_overflow_def Let_def integral1_def integral2_def derivative_def raw_def .
  then have r: "timediff \<noteq> 0" "in_double_range (error * timediff)"
    "in_double_range integral1" "in_double_range (error - e0)" "in_double_range derivative"
    "in_double_range (kp cfg * error)"
    "in_double_range (real_of_int (pwminit cfg) + kp cfg * error)"
    "in_double_range (ki cfg * integral2)"
    "in_double_range (real_of_int (pwminit cfg) + kp cfg * error + ki cfg * integral2)"
    "in_double_range (kd cfg * derivative)" "in_double_range raw"
    by blast+
  have i1: "dadd (Finite i0) (dmul (Finite error) (Finite timediff)) = Finite integral1"
    using r by (simp add: to_double_in_range integral1_def)
  have i2: "(if dless (Finite (imax cfg)) (Finite integral1) then Finite (imax cfg)
             else if dless (Finite integral1) (dneg (Finite (imax cfg)))
                  then dneg (Finite (imax cfg))
             else Finite integral1) = Finite integral2"
    by (simp add: integral2_def)
  have d: "ddiv (dsub (Finite error) (Finite e0)) (Finite timediff) = Finite derivative"
    using r by (simp add: dsub_def to_double_in_range derivative_def)
  have raw: "dadd (dadd (dadd (Finite (real_of_int (pwminit cfg)))
                             (dmul (Finite (kp cfg)) (Finite error)))
                       (dmul (Finite (ki cfg)) (Finite integral2)))
                 (dmul (Finite (kd cfg)) (Finite derivative)) = Finite raw"
    using r by (simp add: to_double_in_range raw_def)
  have lhs: "calculate_new_pwm_ieee cfg (Finite error) (Finite timediff) (Finite i0) (Finite e0)
        = (static_cast_int_ieee
             (if dless (Finite (real_of_int pwmmax)) (Finite raw) then Finite (real_of_int pwmmax)
              else if dless (Finite raw) (Finite (real_of_int (pwmmin cfg)))
                   then Finite (real_of_int (pwmmin cfg))
              else Finite raw), Finite integral2, Finite error)"
    unfolding calculate_new_pwm_ieee_def Let_def i1 i2 d raw ..
  have rhs: "calculate_new_pwm cfg error timediff i0 e0
        = (static_cast_int
             (if raw > real_of_int pwmmax then real_of_int pwmmax
              else if raw < real_of_int (pwmmin cfg) then real_of_int (pwmmin cfg)
              else raw), integral2, error)"
    by (simp add: calculate_new_pwm_def Let_def raw_def integral2_def integral1_def
          derivative_def)
  show ?thesis unfolding lhs rhs by (simp add: static_cast_int_ieee_def)
qed

text \<open>
  C1 (the code departs from the claim). On doubles the PWM returned is within
  \<open>[pwmmin, pwmmax]\<close> only when the unclamped output is a number
  (\<open>calculate_new_pwm_ieee_range\<close>). A NaN passes both comparisons of the output clamp and
  reaches the conversion to \<open>int\<close>, whose result is then undefined. With \<open>pwmmin = 80 \<le> 255\<close>
  and a strictly positive time difference this happens
  \<^item> for the finite gains \<open>kp = 1e308\<close>, \<open>ki = -1e308\<close>, error 3 and ten seconds from the
    fresh state: \<open>kp * error\<close> overflows to \<open>+inf\<close>, \<open>ki * integral\<close> to \<open>-inf\<close>, and
    their sum is NaN;
  \<^item> for the default gains, error 3 and a time difference of \<open>1e-308\<close>: the derivative
    overflows to \<open>+inf\<close> and \<open>kd * derivative = 0 * inf\<close> is NaN.
\<close>

theorem C1_nan_passes_output_clamp:
  "pwmmin (default_config\<lparr>kp := 10 ^ 308, ki := - (10 ^ 308)\<rparr>) \<le> pwmmax
   \<and> dadd (dadd (Finite 128) (dmul (Finite (10 ^ 308)) (Finite 3)))
           (dmul (Finite (- (10 ^ 308))) (Finite 30)) = NaN
   \<and> calculate_new_pwm_ieee (default_config\<lparr>kp := 10 ^ 308, ki := - (10 ^ 308)\<rparr>)
        (Finite 3) (Finite 10) (Finite 0) (Finite 0) = (None, Finite 30, Finite 3)
   \<and> dmul (Finite 0) (ddiv (dsub (Finite 3) (Finite 0)) (Finite (1 / 10 ^ 308))) = NaN
   \<and> calculate_new_pwm_ieee default_config
        (Finite 3) (Finite (1 / 10 ^ 308)) (Finite 0) (Finite 0)
       = (None, Finite (3 / 10 ^ 308), Finite 3)"
  by (simp add: calculate_new_pwm_ieee_def default_config_def to_double_small to_double_large
        to_double_large_neg dsub_def static_cast_int_ieee_def pwmmax_def Let_def)

subsection \<open>The integral clamp\<close>

text \<open>
  C2. With \<open>imax \<ge> 0\<close>, after every step of every sequence of PID steps with strictly
  positive time differences the retained integral lies in \<open>[-imax, imax]\<close>, for all errors
  and from any retained state.
\<close>

theorem C2_integral_within_imax:
  assumes "0 \<le> imax cfg" and "all_positive_dt steps"
  shows "all_integral_within (imax cfg) (pid_steps cfg i0 e0 steps)"
  using assms(2)
proof (induction steps arbitrary: i0 e0)
  case Nil
  show ?case by simp
next
  case (Cons step rest)
  obtain error timediff where step: "step = (error, timediff)" by (cases step)
  obtain newPWM i' e' where
    res: "calculate_new_pwm cfg error timediff i0 e0 = (newPWM, i', e')"
    by (cases "calculate_new_pwm cfg error timediff i0 e0")
  have "- imax cfg \<le> i' \<and> i' \<le> imax cfg"
    using calculate_new_pwm_integral [OF assms(1) res] .
  moreover have "all_integral_within (imax cfg) (pid_steps cfg i' e' rest)"
    using Cons step by simp
  ultimately show ?case using step res by simp
qed

theorem C2_integral_within_imax_witness:
  "0 \<le> imax default_config \<and> all_positive_dt [(3, 10), (40, 100)]
   \<and> all_integral_within (imax default_config)
       (pid_steps default_config 0 0 [(3, 10), (40, 100)])"
proof -
  have a: "0 \<le> imax default_config" by (simp add: default_config_def)
  have b: "all_positive_dt [(3, 10), (40, 100)]" by simp
  show ?thesis using a b C2_integral_within_imax [OF a b, of 0 0] by simp
qed

section \<open>Properties of the rolling average\<close>

lemma sum_list_update_int:
  "i < length xs \<Longrightarrow> sum_list (xs[i := x]) = sum_list xs - xs ! i + (x::int)"
proof (induction xs arbitrary: i)
  case Nil
  then show ?case by simp
next
  case (Cons a xs)
  then show ?case by (cases i) auto
qed

lemma rotate_update_next:
  assumes "i < length vs"
  shows "rotate (Suc i mod length vs) (vs[i := x]) = tl (rotate i vs) @ [x]"
proof -
  have d: "drop i vs = vs ! i # drop (Suc i) vs"
    using assms by (simp add: Cons_nth_drop_Suc)
  have r: "rotate i vs = drop i vs @ take i vs"
    using assms by (simp add: rotate_drop_take)
  have r': "rotate i (vs[i := x]) = drop i (vs[i := x]) @ take i (vs[i := x])"
    using assms by (simp add: rotate_drop_take)
  have u: "drop i (vs[i := x]) = x # drop (Suc i) vs"
    using assms by (simp add: Cons_nth_drop_Suc [symmetric])
  have "rotate (Suc i mod length vs) (vs[i := x]) = rotate (Suc i) (vs[i := x])"
    using rotate_conv_mod [of "Suc i" "vs[i := x]"] by simp
  also have "\<dots> = rotate1 (rotate i (vs[i := x]))" by simp
  also have "\<dots> = drop (Suc i) vs @ take i vs @ [x]"
    by (simp add: r' u)
  also have "\<dots> = tl (rotate i vs) @ [x]"
    by (simp add: r d)
  finally show ?thesis .
qed

lemma smod_nonneg: "0 \<le> a \<Longrightarrow> 0 < b \<Longrightarrow> a smod b = a mod (b::int)"
  by (simp add: signed_modulo_int_def sgn_if)

lemma rolling_init_inv:
  "0 \<le> cputemp_max_values cfg \<Longrightarrow> rolling_inv cfg [] (rolling_init cfg)"
  by (simp add: rolling_inv_def rolling_init_def sum_list_replicate)

lemma rolling_insert_filling:
  assumes inv: "rolling_inv cfg xs r" and lt: "int (length xs) < cputemp_max_values cfg"
  shows "\<exists>r'. rolling_insert cfg x r = Inr r' \<and> rolling_inv cfg (xs @ [x]) r'"
proof -
  define N where "N = nat (cputemp_max_values cfg)"
  have cap: "cputemp_max_values cfg = int N" and n: "length xs < N"
    using lt by (simp_all add: N_def)
  have len: "length (cputemp_values r) = N"
    and sum: "cputemp_sum r = sum_list (cputemp_values r)"
    and cnt: "cputemp_count r = int (length xs)"
    and idx: "cputemp_index r = int (length xs)"
    and vals: "cputemp_values r = xs @ replicate (N - length xs) 0"
    using inv n by (simp_all add: rolling_inv_def cap)
  have rep: "replicate (N - length xs) (0::int) = 0 # replicate (N - Suc (length xs)) 0"
    using n by (simp add: Suc_diff_Suc replicate_Suc [symmetric] del: replicate_Suc)
  have vals': "(cputemp_values r)[length xs := x]
               = (xs @ [x]) @ replicate (N - length (xs @ [x])) 0"
    by (simp add: vals rep list_update_append)
  have sl: "sum_list (cputemp_values r) = sum_list xs"
    by (simp add: vals sum_list_replicate)
  define r' where
    "r' = r\<lparr> cputemp_sum := cputemp_sum r + x,
             cputemp_values := (cputemp_values r)[length xs := x],
             cputemp_count := int (length xs) + 1,
             cputemp_index := (int (length xs) + 1) mod int N,
             cpu_avg_temp := (cputemp_sum r + x) sdiv (int (length xs) + 1) \<rparr>"
  have "rolling_insert cfg x r = Inr r'"
    using n by (simp add: rolling_insert_def advance_and_average_def in_block_def
        cnt idx cap len r'_def smod_nonneg)
  moreover have "rolling_inv cfg (xs @ [x]) r'"
    using n unfolding rolling_inv_def r'_def cap
    by (simp add: vals' sum sl sum_list_replicate add.commute)
  ultimately show ?thesis by blast
qed

lemma rolling_insert_full:
  assumes inv: "rolling_inv cfg xs r" and ge: "cputemp_max_values cfg \<le> int (length xs)"
    and pos: "1 \<le> cputemp_max_values cfg"
  shows "\<exists>r'. rolling_insert cfg x r = Inr r' \<and> rolling_inv cfg (xs @ [x]) r'"
proof -
  define N where "N = nat (cputemp_max_values cfg)"
  define i where "i = length xs mod N"
  have cap: "cputemp_max_values cfg = int N" and n: "N \<le> length xs" and N: "0 < N"
    using ge pos by (simp_all add: N_def)
  have i: "i < N" using N by (simp add: i_def)
  have len: "length (cputemp_values r) = N"
    and sum: "cputemp_sum r = sum_list (cputemp_values r)"
    and cnt: "cputemp_count r = int N"
    and idx: "cputemp_index r = int i"
    using inv n by (simp_all add: rolling_inv_def cap i_def zmod_int)
  have rot: "rotate i (cputemp_values r) = drop (length xs - N) xs"
  proof (cases "length xs = N")
    case True
    then show ?thesis using inv by (simp add: rolling_inv_def cap i_def)
  next
    case False
    then show ?thesis using inv n idx by (simp add: rolling_inv_def cap)
  qed
  define r' where
    "r' = r\<lparr> cputemp_sum := cputemp_sum r - cputemp_values r ! i + x,
             cputemp_values := (cputemp_values r)[i := x],
             cputemp_index := int (Suc i mod N),
             cpu_avg_temp := (cputemp_sum r - cputemp_values r ! i + x) sdiv int N \<rparr>"
  have "(int i + 1) smod int N = int (Suc i mod N)"
    using N by (simp add: smod_nonneg zmod_int add.commute)
  then have "rolling_insert cfg x r = Inr r'"
    using N i by (simp add: rolling_insert_def advance_and_average_def in_block_def
        cnt idx cap len r'_def)
  moreover have "rolling_inv cfg (xs @ [x]) r'"
  proof -
    have a: "Suc i mod N = Suc (length xs) mod N"
      by (simp add: i_def mod_Suc_eq)
    have "rotate (Suc i mod N) ((cputemp_values r)[i := x])
          = tl (rotate i (cputemp_values r)) @ [x]"
      using rotate_update_next [of i "cputemp_values r" x] i len by simp
    also have "\<dots> = drop (Suc (length xs) - N) (xs @ [x])"
      using n N by (simp add: rot drop_Suc [symmetric] Suc_diff_le tl_drop)
    finally have b: "rotate (Suc i mod N) ((cputemp_values r)[i := x])
          = drop (Suc (length xs) - N) (xs @ [x])" .
    have c: "(int (length xs) + 1) mod int N = int (Suc i mod N)"
      "(1 + int (length xs)) mod int N = int (Suc i mod N)"
      using a by (simp_all add: zmod_int add.commute)
    show ?thesis
      using n N i b c unfolding rolling_inv_def r'_def cap
      by (simp add: sum len sum_list_update_int cnt)
  qed
  ultimately show ?thesis by blast
qed

lemma rolling_insert_inv:
  assumes "rolling_inv cfg xs r" and "1 \<le> cputemp_max_values cfg"
  shows "\<exists>r'. rolling_insert cfg x r = Inr r' \<and> rolling_inv cfg (xs @ [x]) r'"
proof (cases "int (length xs) < cputemp_max_values cfg")
  case True
  then show ?thesis using rolling_insert_filling [OF assms(1)] by simp
next
  case False
  then show ?thesis using rolling_insert_full [OF assms(1) _ assms(2)] by simp
qed

lemma insert_all_snoc:
  "insert_all cfg (xs @ [x]) r =
     (case insert_all cfg xs r of Inl f \<Rightarrow> Inl f | Inr r' \<Rightarrow> rolling_insert cfg x r')"
  by (induction xs arbitrary: r) (auto split: sum.splits)

lemma insert_all_inv:
  assumes "1 \<le> cputemp_max_values cfg"
  shows "\<exists>r. insert_all cfg xs (rolling_init cfg) = Inr r \<and> rolling_inv cfg xs r"
proof (induction xs rule: rev_induct)
  case Nil
  show ?case using assms by (simp add: rolling_init_inv)
next
  case (snoc x xs)
  then obtain r where r: "insert_all cfg xs (rolling_init cfg) = Inr r"
    and inv: "rolling_inv cfg xs r" by blast
  show ?case using rolling_insert_inv [OF inv assms, of x] r
    by (simp add: insert_all_snoc)
qed


lemma sum_list_rotate: "sum_list (rotate n xs) = sum_list (xs :: int list)"
proof -
  have "sum_list (drop (n mod length xs) xs @ take (n mod length xs) xs)
        = sum_list (take (n mod length xs) xs @ drop (n mod length xs) xs)"
    by (simp only: sum_list_append add.commute)
  then show ?thesis by (simp add: rotate_drop_take)
qed

lemma rolling_insert_init_nonpositive:
  "cputemp_max_values cfg \<le> 0 \<Longrightarrow> rolling_insert cfg x (rolling_init cfg) = Inl OutOfBounds"
  by (simp add: rolling_insert_def rolling_init_def in_block_def)

lemma insert_all_nonpositive:
  assumes "cputemp_max_values cfg \<le> 0" and "insert_all cfg xs (rolling_init cfg) = Inr r"
  shows "xs = [] \<and> r = rolling_init cfg"
  using assms by (cases xs) (simp_all add: rolling_insert_init_nonpositive)

lemma rolling_insert_no_division_by_zero:
  assumes "insert_all cfg xs (rolling_init cfg) = Inr r"
  shows "rolling_insert cfg x r \<noteq> Inl DivisionByZero
         \<and> (\<forall>r'. rolling_insert cfg x r = Inr r' \<longrightarrow> 1 \<le> cputemp_count r')"
proof (cases "1 \<le> cputemp_max_values cfg")
  case True
  obtain r0 where "insert_all cfg xs (rolling_init cfg) = Inr r0" and "rolling_inv cfg xs r0"
    using insert_all_inv [OF True] by blast
  then have inv: "rolling_inv cfg xs r" using assms by simp
  obtain r' where r': "rolling_insert cfg x r = Inr r'"
    and inv': "rolling_inv cfg (xs @ [x]) r'"
    using rolling_insert_inv [OF inv True] by blast
  have "1 \<le> cputemp_count r'" using inv' True by (simp add: rolling_inv_def)
  then show ?thesis using r' by simp
next
  case False
  then have "rolling_insert cfg x r = Inl OutOfBounds"
    using insert_all_nonpositive [OF _ assms] rolling_insert_init_nonpositive by simp
  then show ?thesis by simp
qed

text \<open>
  C3. For a buffer of capacity \<open>N = cputemp_max_values \<ge> 1\<close> and any samples \<open>xs\<close>
  inserted into the empty buffer: every insert succeeds and \<open>cputemp_sum\<close> is the sum of
  the block's contents; after \<open>k \<le> N\<close> samples \<open>cputemp_count = k\<close>, the block starts
  with the samples and (for \<open>k \<ge> 1\<close>) the average is their sum divided by \<open>k\<close>, by
  integer division; after \<open>N\<close> or more samples \<open>cputemp_count = N\<close>, the block read circularly from
  \<open>cputemp_index\<close> is exactly the most recent \<open>N\<close> samples, and the average is their
  sum divided by \<open>N\<close>.
\<close>

theorem C3_rolling_buffer:
  assumes "1 \<le> cputemp_max_values cfg"
  shows "\<exists>r. insert_all cfg xs (rolling_init cfg) = Inr r
           \<and> cputemp_sum r = sum_list (cputemp_values r)
           \<and> (int (length xs) \<le> cputemp_max_values cfg \<longrightarrow>
                cputemp_count r = int (length xs)
                \<and> take (length xs) (cputemp_values r) = xs
                \<and> (xs \<noteq> [] \<longrightarrow> cpu_avg_temp r = sum_list xs sdiv int (length xs)))
           \<and> (cputemp_max_values cfg \<le> int (length xs) \<longrightarrow>
                cputemp_count r = cputemp_max_values cfg
                \<and> rotate (nat (cputemp_index r)) (cputemp_values r)
                    = drop (length xs - nat (cputemp_max_values cfg)) xs
                \<and> cpu_avg_temp r
                    = sum_list (drop (length xs - nat (cputemp_max_values cfg)) xs)
                      sdiv cputemp_max_values cfg)"
proof -
  obtain r where r: "insert_all cfg xs (rolling_init cfg) = Inr r"
    and inv: "rolling_inv cfg xs r"
    using insert_all_inv [OF assms] by blast
  define N where "N = nat (cputemp_max_values cfg)"
  have cap: "cputemp_max_values cfg = int N" and N: "0 < N"
    using assms by (simp_all add: N_def)
  have s: "cputemp_sum r = sum_list (cputemp_values r)"
    using inv by (simp add: rolling_inv_def)
  have small: "cputemp_count r = int (length xs)
      \<and> take (length xs) (cputemp_values r) = xs
      \<and> (xs \<noteq> [] \<longrightarrow> cpu_avg_temp r = sum_list xs sdiv int (length xs))"
    if "length xs \<le> N"
  proof -
    have v: "cputemp_values r = xs @ replicate (N - length xs) 0"
      and c: "cputemp_count r = int (length xs)"
      using inv that by (simp_all add: rolling_inv_def cap)
    have "cputemp_sum r = sum_list xs"
      by (simp add: s v sum_list_replicate)
    then show ?thesis using inv c by (simp add: rolling_inv_def v)
  qed
  have big: "cputemp_count r = int N
      \<and> rotate (nat (cputemp_index r)) (cputemp_values r) = drop (length xs - N) xs
      \<and> cpu_avg_temp r = sum_list (drop (length xs - N) xs) sdiv int N"
    if "N \<le> length xs"
  proof -
    have c: "cputemp_count r = int N"
      using inv that by (simp add: rolling_inv_def cap)
    have ne: "xs \<noteq> []" using that N by auto
    have rot: "rotate (nat (cputemp_index r)) (cputemp_values r) = drop (length xs - N) xs"
    proof (cases "length xs = N")
      case True
      then show ?thesis using inv by (simp add: rolling_inv_def cap)
    next
      case False
      then show ?thesis using inv that by (auto simp: rolling_inv_def cap)
    qed
    have "cputemp_sum r = sum_list (drop (length xs - N) xs)"
      using sum_list_rotate [of "nat (cputemp_index r)" "cputemp_values r"]
      by (simp add: s rot)
    then show ?thesis using inv c rot ne by (simp add: rolling_inv_def)
  qed
  show ?thesis using r s small big by (auto simp: cap)
qed

theorem C3_rolling_buffer_witness:
  "1 \<le> cputemp_max_values (default_config\<lparr>cputemp_max_values := 2\<rparr>)
   \<and> (\<exists>r. insert_all (default_config\<lparr>cputemp_max_values := 2\<rparr>) [30, 31, 32]
              (rolling_init (default_config\<lparr>cputemp_max_values := 2\<rparr>)) = Inr r
          \<and> cputemp_sum r = sum_list (cputemp_values r)
          \<and> cputemp_count r = 2
          \<and> rotate (nat (cputemp_index r)) (cputemp_values r) = [31, 32]
          \<and> cpu_avg_temp r = 31)"
  using C3_rolling_buffer [of "default_config\<lparr>cputemp_max_values := 2\<rparr>" "[30, 31, 32]"]
  by (simp add: signed_divide_int_def)

section \<open>Properties of the control loop\<close>

subsection \<open>The rolling buffer along a run\<close>

lemma cpu_step_reach:
  assumes "cpu_step cfg p buf r m = Inr (r', m')"
  shows "r' = r \<or> (\<exists>x. rolling_insert cfg x r = Inr r')"
  using assms by (auto simp: cpu_step_def split: probe.splits sum.splits)

lemma loop_iteration_cpu:
  assumes "loop_iteration cfg inp s = Inr s'"
  shows "cpu s' = cpu s \<or> (\<exists>x. rolling_insert cfg x (cpu s) = Inr (cpu s'))"
proof -
  obtain r' m' where c: "cpu_step cfg (cpu_probe inp) (cputempstring_initial inp) (cpu s)
             (fst (probe_drives (drive_probes inp) 0 (tempstring_initial inp))) = Inr (r', m')"
    and r': "cpu s' = r'"
    using assms
    by (auto simp: loop_iteration_def Let_def split: sum.splits prod.splits if_splits)
  show ?thesis using cpu_step_reach [OF c] r' by simp
qed

lemma insert_all_append:
  "insert_all cfg (xs @ ys) r =
     (case insert_all cfg xs r of Inl f \<Rightarrow> Inl f | Inr r' \<Rightarrow> insert_all cfg ys r')"
  by (induction xs arbitrary: r) (auto split: sum.splits)

lemma main_loop_cpu:
  assumes "main_loop cfg inps s = Inr s'"
  shows "\<exists>xs. insert_all cfg xs (cpu s) = Inr (cpu s')"
  using assms
proof (induction inps arbitrary: s)
  case Nil
  then have "insert_all cfg [] (cpu s) = Inr (cpu s')" by simp
  then show ?case by blast
next
  case (Cons inp inps)
  then obtain s1 where s1: "loop_iteration cfg inp s = Inr s1"
    and rest: "main_loop cfg inps s1 = Inr s'"
    by (auto split: sum.splits)
  obtain ys where ys: "insert_all cfg ys (cpu s1) = Inr (cpu s')"
    using Cons.IH [OF rest] by blast
  from loop_iteration_cpu [OF s1] show ?case
  proof
    assume "cpu s1 = cpu s"
    then show ?thesis using ys by auto
  next
    assume "\<exists>x. rolling_insert cfg x (cpu s) = Inr (cpu s1)"
    then obtain x where "rolling_insert cfg x (cpu s) = Inr (cpu s1)" by blast
    then have "insert_all cfg (x # ys) (cpu s) = Inr (cpu s')" using ys by simp
    then show ?thesis by blast
  qed
qed

lemma run_main_cpu:
  assumes "run_main cfg hi lo now inps = Inr s"
  shows "\<exists>xs. insert_all cfg xs (rolling_init cfg) = Inr (cpu s)"
  using main_loop_cpu [of cfg inps "startup cfg hi lo now" s] assms
  by (simp add: run_main_def startup_def Let_def)

lemma loop_iteration_fault:
  assumes "loop_iteration cfg inp s = Inl f"
  shows "\<exists>x. rolling_insert cfg x (cpu s) = Inl f"
  using assms
  by (auto simp: loop_iteration_def cpu_step_def Let_def
           split: sum.splits prod.splits if_splits probe.splits)

lemma loop_iteration_insert:
  assumes "loop_iteration cfg inp s = Inr s'" and "cpu_probe inp = Output out"
  shows "rolling_insert cfg (atoi (fgets 10 out (cputempstring_initial inp))) (cpu s)
         = Inr (cpu s')"
  using assms
  by (auto simp: loop_iteration_def cpu_step_def Let_def
           split: sum.splits prod.splits if_splits)

lemma rolling_insert_average:
  assumes "rolling_insert cfg x r = Inr r'"
  shows "cpu_avg_temp r' = cputemp_sum r' sdiv cputemp_count r'"
  using assms
  by (auto simp: rolling_insert_def advance_and_average_def split: if_splits)

lemma run_main_rolling_inv:
  assumes "run_main cfg hi lo now inps = Inr s" and "1 \<le> cputemp_max_values cfg"
  shows "\<exists>xs. rolling_inv cfg xs (cpu s)"
proof -
  obtain xs where xs: "insert_all cfg xs (rolling_init cfg) = Inr (cpu s)"
    using run_main_cpu [OF assms(1)] by blast
  then show ?thesis using insert_all_inv [OF assms(2), of xs] by auto
qed

lemma cpu_step_total:
  assumes "rolling_inv cfg xs r" and "1 \<le> cputemp_max_values cfg"
  shows "\<exists>r' m'. cpu_step cfg p buf r m = Inr (r', m')"
proof (cases p)
  case PopenFailed
  then show ?thesis by (simp add: cpu_step_def)
next
  case (Output out)
  obtain r' where "rolling_insert cfg (atoi (fgets 10 out buf)) r = Inr r'"
    using rolling_insert_inv [OF assms] by blast
  then show ?thesis using Output by (simp add: cpu_step_def)
qed

lemma loop_iteration_total:
  assumes "rolling_inv cfg xs (cpu s)" and "1 \<le> cputemp_max_values cfg"
  shows "\<exists>s'. loop_iteration cfg inp s = Inr s'"
proof -
  obtain r' m' where "cpu_step cfg (cpu_probe inp) (cputempstring_initial inp) (cpu s)
             (fst (probe_drives (drive_probes inp) 0 (tempstring_initial inp))) = Inr (r', m')"
    using cpu_step_total [OF assms] by blast
  then show ?thesis
    by (simp add: loop_iteration_def Let_def split: prod.splits)
qed

subsection \<open>The drive loop computes a maximum\<close>

lemma Max_insert_insert:
  "finite S \<Longrightarrow> Max (insert (m::int) (insert t S)) = Max (insert (max m t) S)"
  by (cases "S = {}") (auto simp: max.assoc)

lemma probe_drives_max:
  "fst (probe_drives ps m buf) = Max (insert m (set (drive_temps ps buf)))"
proof (induction ps m buf rule: probe_drives.induct)
  case (1 maxtemp tempstring)
  show ?case by simp
next
  case (2 rest maxtemp tempstring)
  then show ?case by simp
next
  case (3 out rest maxtemp tempstring)
  let ?b = "fgets 20 out tempstring"
  let ?m = "if atoi ?b > maxtemp then atoi ?b else maxtemp"
  have IH: "fst (probe_drives rest ?m ?b) = Max (insert ?m (set (drive_temps rest ?b)))"
    using 3 [OF refl refl] .
  have m: "?m = max maxtemp (atoi ?b)" by simp
  have "Max (insert ?m (set (drive_temps rest ?b)))
        = Max (insert maxtemp (insert (atoi ?b) (set (drive_temps rest ?b))))"
    unfolding m by (simp add: Max_insert_insert del: Max_insert)
  then show ?case using IH by (simp add: Let_def del: Max_insert)
qed

lemma loop_iteration_maxtemp:
  assumes "loop_iteration cfg inp s = Inr s'"
  shows "cpu_step cfg (cpu_probe inp) (cputempstring_initial inp) (cpu s)
           (fst (probe_drives (drive_probes inp) 0 (tempstring_initial inp)))
         = Inr (cpu s', maxtemp s')"
  using assms
  by (auto simp: loop_iteration_def Let_def split: sum.splits prod.splits if_splits)

text \<open>
  When every pipe that opens carries at least one character, the readings do not depend
  on what \<open>tempstring\<close> held before the loop.
\<close>

lemma drive_temps_no_eof:
  assumes "Output [] \<notin> set ps"
  shows "drive_temps ps buf = drive_temps ps buf'"
  using assms
proof (induction ps buf arbitrary: buf' rule: drive_temps.induct)
  case (1 tempstring)
  show ?case by simp
next
  case (2 rest tempstring)
  then show ?case by simp
next
  case (3 out rest tempstring)
  then have "out \<noteq> []" by auto
  then show ?case by (simp add: fgets_def)
qed

lemma drive_temps_readings:
  assumes "Output [] \<notin> set ps"
  shows "drive_temps ps buf = drive_readings ps"
  using assms
proof (induction ps buf rule: drive_temps.induct)
  case (1 tempstring)
  show ?case by simp
next
  case (2 rest tempstring)
  then show ?case by simp
next
  case (3 out rest tempstring)
  then have "out \<noteq> []" by auto
  then show ?case using 3 by (simp add: fgets_def)
qed

subsection \<open>The overheat setting is not read\<close>

lemma rolling_insert_overheat:
  "rolling_insert (cfg\<lparr>overheat := v\<rparr>) x r = rolling_insert cfg x r"
  by (simp add: rolling_insert_def advance_and_average_def cong: if_cong)

lemma cpu_step_overheat:
  "cpu_step (cfg\<lparr>overheat := v\<rparr>) p buf r m = cpu_step cfg p buf r m"
  by (simp add: cpu_step_def rolling_insert_overheat cong: probe.case_cong)

lemma calculate_new_pwm_overheat:
  "calculate_new_pwm (cfg\<lparr>overheat := v\<rparr>) e dt i0 e0 = calculate_new_pwm cfg e dt i0 e0"
  by (simp add: calculate_new_pwm_def Let_def cong: if_cong)

lemma loop_iteration_overheat:
  "loop_iteration (cfg\<lparr>overheat := v\<rparr>) inp s = loop_iteration cfg inp s"
  by (simp add: loop_iteration_def cpu_step_overheat calculate_new_pwm_overheat
           cong: sum.case_cong prod.case_cong if_cong)

lemma main_loop_overheat:
  "main_loop (cfg\<lparr>overheat := v\<rparr>) inps s = main_loop cfg inps s"
  by (induction inps arbitrary: s) (simp_all add: loop_iteration_overheat cong: sum.case_cong)

subsection \<open>Evaluating the scenarios\<close>

lemmas eval_defs = default_config_def pwmmax_def port_def static_cast_int_def
  calculate_new_pwm_def iowrite_def ioread_def ecwrite_def newline_def first_line_def
  fgets_def isspace_def isdigit_def atoi_def rolling_init_def in_block_def
  advance_and_average_def rolling_insert_def cpu_step_def timediff_of_def startup_def
  loop_iteration_def run_main_def scenario1_state_def scenario1_input_def
  scenario1_result_def signed_divide_int_def signed_modulo_int_def Let_def

lemma replicate_ten: "replicate 10 (0::int) = [0, 0, 0, 0, 0, 0, 0, 0, 0, 0]"
  by (simp add: eval_nat_numeral)

lemma scenario1_iteration:
  "loop_iteration default_config scenario1_input scenario1_state = Inr scenario1_result"
  by (simp add: eval_defs replicate_ten)

lemma scenario1_start:
  "run_main default_config 0x0a 0x30 \<lparr> tv_sec = 100, tv_nsec = 0 \<rparr> [] = Inr scenario1_state"
  by (simp add: run_main_def scenario1_state_def)

subsection \<open>The claims about the loop\<close>

text \<open>
  C4 (as amended). In every iteration that completes and in which every drive pipe that
  opens delivers output: when the CPU probe's pipe opens, the effective control
  temperature \<open>maxtemp\<close> equals \<open>max(deviceMax, cpu_avg_temp - 20)\<close>, where \<open>deviceMax\<close> is
  the maximum of 0 and the readings parsed from the drives' outputs; when the CPU probe's
  pipe does not open, the CPU block is skipped, \<open>maxtemp = deviceMax\<close> and the rolling
  buffer keeps its state. For non-negative readings, at least one, \<open>deviceMax\<close> is the
  maximum of the readings.
\<close>

theorem C4_effective_temperature:
  assumes "loop_iteration cfg inp s = Inr s'"
    and "Output [] \<notin> set (drive_probes inp)"
  shows "(\<forall>out. cpu_probe inp = Output out \<longrightarrow>
            maxtemp s' = max (Max (insert 0 (set (drive_readings (drive_probes inp)))))
                             (cpu_avg_temp (cpu s') - 20))
         \<and> (cpu_probe inp = PopenFailed \<longrightarrow>
            maxtemp s' = Max (insert 0 (set (drive_readings (drive_probes inp))))
            \<and> cpu s' = cpu s)
         \<and> (drive_readings (drive_probes inp) \<noteq> []
            \<and> (\<forall>t \<in> set (drive_readings (drive_probes inp)). 0 \<le> t)
            \<longrightarrow> Max (insert 0 (set (drive_readings (drive_probes inp))))
                = Max (set (drive_readings (drive_probes inp))))"
proof -
  define temps where "temps = drive_readings (drive_probes inp)"
  define dm where "dm = fst (probe_drives (drive_probes inp) 0 (tempstring_initial inp))"
  have dm: "dm = Max (insert 0 (set temps))"
    using drive_temps_readings [OF assms(2)]
    by (simp add: dm_def temps_def probe_drives_max)
  have step: "cpu_step cfg (cpu_probe inp) (cputempstring_initial inp) (cpu s) dm
              = Inr (cpu s', maxtemp s')"
    using loop_iteration_maxtemp [OF assms(1)] by (simp add: dm_def)
  have a: "maxtemp s' = max dm (cpu_avg_temp (cpu s') - 20)"
    if "cpu_probe inp = Output out" for out
    using step that by (auto simp: cpu_step_def max_def split: sum.splits if_splits)
  have b: "maxtemp s' = dm \<and> cpu s' = cpu s" if "cpu_probe inp = PopenFailed"
    using step that by (simp add: cpu_step_def)
  have c: "Max (insert 0 (set temps)) = Max (set temps)"
    if ne: "temps \<noteq> []" and nn: "\<forall>t \<in> set temps. 0 \<le> t"
  proof -
    obtain t where t: "t \<in> set temps" using ne by (cases temps) auto
    then have "0 \<le> t" using nn by simp
    moreover have "t \<le> Max (set temps)" using t by simp
    ultimately have "0 \<le> Max (set temps)" by linarith
    then show ?thesis using ne by (simp add: max_def)
  qed
  show ?thesis using a b c unfolding dm temps_def by blast
qed

theorem C4_effective_temperature_witness:
  "loop_iteration default_config scenario1_input scenario1_state = Inr scenario1_result
   \<and> Output [] \<notin> set (drive_probes scenario1_input)
   \<and> cpu_probe scenario1_input = Output (''50'' @ [newline])
   \<and> drive_readings (drive_probes scenario1_input) = [40]
   \<and> maxtemp scenario1_result
       = max (Max (insert 0 (set (drive_readings (drive_probes scenario1_input)))))
             (cpu_avg_temp (cpu scenario1_result) - 20)
   \<and> maxtemp scenario1_result = max 40 (50 - 20)"
proof -
  have p: "cpu_probe scenario1_input = Output (''50'' @ [newline])"
    by (simp add: scenario1_input_def)
  have q: "Output [] \<notin> set (drive_probes scenario1_input)"
    by (simp add: scenario1_input_def)
  have t: "drive_readings (drive_probes scenario1_input) = [40]"
    by (simp add: eval_defs)
  have m: "maxtemp scenario1_result = max 40 (50 - 20)"
    by (simp add: scenario1_result_def)
  show ?thesis
    using C4_effective_temperature [OF scenario1_iteration q] scenario1_iteration p q t m
    by blast
qed

text \<open>
  C4 as stated fails when the CPU probe's pipe does not open: after scenario 1 the rolling
  average is 50; in the next iteration the drive reads 25 and \<open>popen\<close> fails for the CPU
  probe, so the iteration reports \<open>maxtemp = 25\<close> with \<open>cpu_avg_temp = 50\<close>, while
  \<open>max(25, 50 - 20) = 30\<close>.
\<close>

theorem C4_cpu_pipe_failure_counterexample:
  "map_sum id aggregate_view
     (run_main default_config 0x0a 0x30 \<lparr> tv_sec = 100, tv_nsec = 0 \<rparr>
        [scenario1_input, cpu_pipe_fails_input]) = Inr (25, 50)
   \<and> drive_temps (drive_probes cpu_pipe_fails_input)
        (tempstring_initial cpu_pipe_fails_input) = [25]
   \<and> (25::int) \<noteq> max 25 (50 - 20)"
  by (simp add: eval_defs replicate_ten aggregate_view_def cpu_pipe_fails_input_def)

text \<open>
  C5. Scenario 1: with the default configuration (setpoint 37, kp 50, ki 0.5, kd 0, imax 255,
  pwminit 128, pwmmin 80), one drive reading 40, a rolling CPU average of 50, a fresh PID
  state and ten seconds since the last sample, the effective temperature is
  \<open>max(40, 30) = 40\<close>, the error is 3, the integral after the step is 30, the unclamped
  output is 293 and the PWM returned and stored is 255.
\<close>

theorem C5_scenario1:
  "loop_iteration default_config scenario1_input scenario1_state = Inr scenario1_result
   \<and> drive_temps (drive_probes scenario1_input) (tempstring_initial scenario1_input) = [40]
   \<and> cpu_avg_temp (cpu scenario1_result) = 50
   \<and> maxtemp scenario1_result = max 40 (50 - 20)
   \<and> maxtemp scenario1_result = 40
   \<and> real_of_int (maxtemp scenario1_result - setpoint default_config) = 3
   \<and> timediff_of (curtime scenario1_input) (lasttime scenario1_state) = 10
   \<and> integral scenario1_state = 0 \<and> prev_error scenario1_state = 0
   \<and> real_of_int (pwminit default_config) + kp default_config * 3
       + ki default_config * 30 + kd default_config * ((3 - 0) / 10) = 293
   \<and> calculate_new_pwm default_config 3 10 0 0 = (255, 30, 3)
   \<and> integral scenario1_result = 30
   \<and> pwm scenario1_result = 255"
  by (simp add: eval_defs replicate_ten)

text \<open>
  C6. In an iteration whose time difference is 0, the iteration ends with the sleep and
  nothing else is appended to the port log (no PWM register is written); \<open>integral\<close>,
  \<open>prev_error\<close>, \<open>pwm\<close> and \<open>lasttime\<close> keep their values. From every state the program
  reaches with a rolling window of at least one entry, such an iteration completes.
\<close>

theorem C6_zero_timediff_changes_nothing:
  assumes "timediff_of (curtime inp) (lasttime s) = 0"
  shows "(\<forall>s'. loop_iteration cfg inp s = Inr s' \<longrightarrow>
            integral s' = integral s \<and> prev_error s' = prev_error s \<and> pwm s' = pwm s
            \<and> lasttime s' = lasttime s
            \<and> io_log s' = io_log s @ [Sleep (interval cfg)])
         \<and> (1 \<le> cputemp_max_values cfg \<and> run_main cfg hi lo now inps = Inr s
              \<longrightarrow> (\<exists>s'. loop_iteration cfg inp s = Inr s'))"
proof -
  have "integral s' = integral s \<and> prev_error s' = prev_error s \<and> pwm s' = pwm s
        \<and> lasttime s' = lasttime s \<and> io_log s' = io_log s @ [Sleep (interval cfg)]"
    if "loop_iteration cfg inp s = Inr s'" for s'
    using that assms
    by (auto simp: loop_iteration_def Let_def split: sum.splits prod.splits)
  moreover have "\<exists>s'. loop_iteration cfg inp s = Inr s'"
    if "1 \<le> cputemp_max_values cfg" and "run_main cfg hi lo now inps = Inr s"
    using run_main_rolling_inv [OF that(2) that(1)] loop_iteration_total [OF _ that(1)]
    by blast
  ultimately show ?thesis by blast
qed

theorem C6_zero_timediff_changes_nothing_witness:
  "timediff_of (curtime same_instant_input) (lasttime scenario1_state) = 0
   \<and> 1 \<le> cputemp_max_values default_config
   \<and> run_main default_config 0x0a 0x30 \<lparr> tv_sec = 100, tv_nsec = 0 \<rparr> [] = Inr scenario1_state
   \<and> (\<exists>s'. loop_iteration default_config same_instant_input scenario1_state = Inr s'
          \<and> integral s' = integral scenario1_state
          \<and> prev_error s' = prev_error scenario1_state
          \<and> pwm s' = pwm scenario1_state
          \<and> lasttime s' = lasttime scenario1_state
          \<and> io_log s' = io_log scenario1_state @ [Sleep (interval default_config)])"
proof -
  have dt: "timediff_of (curtime same_instant_input) (lasttime scenario1_state) = 0"
    by (simp add: timediff_of_def same_instant_input_def scenario1_input_def
        scenario1_state_def startup_def Let_def)
  have cap: "1 \<le> cputemp_max_values default_config"
    by (simp add: default_config_def)
  show ?thesis
    using C6_zero_timediff_changes_nothing [OF dt, where cfg = default_config
        and hi = "0x0a" and lo = "0x30" and now = "\<lparr> tv_sec = 100, tv_nsec = 0 \<rparr>"
        and inps = "[]"] dt cap scenario1_start
    by blast
qed

text \<open>
  C7 (the code departs from the claim). A drive whose command prints nothing does not
  contribute 0: \<open>fgets\<close> leaves \<open>tempstring\<close> untouched and \<open>atoi\<close> reads what was there.
  With the only drive silent and the buffer reading 45, the drive's reading is 45, the
  device maximum is 45 and the iteration reports \<open>maxtemp = 45\<close>, where the maximum of the
  successful readings (none) and 0 is 0 and \<open>max(0, 50 - 20) = 30\<close>.
\<close>

theorem C7_silent_drive_reads_stale_buffer:
  "drive_temps (drive_probes silent_drive_input) (tempstring_initial silent_drive_input)
     = [45]
   \<and> fst (probe_drives (drive_probes silent_drive_input) 0
            (tempstring_initial silent_drive_input)) = 45
   \<and> map_sum id aggregate_view
        (loop_iteration default_config silent_drive_input scenario1_state) = Inr (45, 50)"
  by (simp add: eval_defs replicate_ten aggregate_view_def silent_drive_input_def)

text \<open>
  C8. Two runs that differ only in the configured overheat value, on the same start-up
  reads, clock readings and probe outputs, end in the same result: the same state, hence
  the same PWM values, and the same port log, hence the same register writes. As this
  holds for every input sequence, it holds after every iteration.
\<close>

theorem C8_overheat_is_never_read:
  "run_main (cfg\<lparr>overheat := v\<rparr>) hi lo now inps = run_main cfg hi lo now inps"
  by (simp add: run_main_def main_loop_overheat startup_def rolling_init_def)

text \<open>
  C9. An iteration with a non-zero time difference performs exactly these port accesses:
  \<open>outb(0x6b, ecbar + 5)\<close>, \<open>outb(pwm, ecbar + 6)\<close>, \<open>outb(0x73, ecbar + 5)\<close>,
  \<open>outb(pwm, ecbar + 6)\<close>, with one and the same byte \<open>pwm\<close>, the value the iteration
  stored; then it sleeps. Start-up selects and writes the two PWM registers in the same
  way with the initial \<open>pwm\<close> byte, after the chip initialisation and before the two
  software-operation registers.
\<close>

theorem C9_both_channels_same_value:
  "(timediff_of (curtime inp) (lasttime s) \<noteq> 0 \<and> loop_iteration cfg inp s = Inr s' \<longrightarrow>
      io_log s' = io_log s
        @ [Outb 0x6b (ecbar s + 5), Outb (pwm s') (ecbar s + 6),
           Outb 0x73 (ecbar s + 5), Outb (pwm s') (ecbar s + 6),
           Sleep (interval cfg)])
   \<and> io_log (startup cfg hi lo now) =
       [Outb 0x87 0x2e, Outb 0x01 0x2e, Outb 0x55 0x2e, Outb 0x55 0x2e,
        Outb 0x07 0x2e, Outb 0x04 0x2f, Outb 0x30 0x2e, Outb 0x01 0x2f,
        Outb 0x60 0x2e, Inb 0x2f, Outb 0x61 0x2e, Inb 0x2f,
        Outb 0x6b (ecbar (startup cfg hi lo now) + 5),
        Outb (word_of_int (pwminit cfg)) (ecbar (startup cfg hi lo now) + 6),
        Outb 0x73 (ecbar (startup cfg hi lo now) + 5),
        Outb (word_of_int (pwminit cfg)) (ecbar (startup cfg hi lo now) + 6),
        Outb 0x16 (ecbar (startup cfg hi lo now) + 5),
        Outb 0x00 (ecbar (startup cfg hi lo now) + 6),
        Outb 0x17 (ecbar (startup cfg hi lo now) + 5),
        Outb 0x00 (ecbar (startup cfg hi lo now) + 6)]
   \<and> pwm (startup cfg hi lo now) = word_of_int (pwminit cfg)
   \<and> ecbar (startup cfg hi lo now) = push_bit 8 (ucast hi) + ucast lo"
  by (auto simp: loop_iteration_def startup_def Let_def ecwrite_def iowrite_def ioread_def
        port_def split: sum.splits prod.splits)

theorem C9_both_channels_same_value_witness:
  "timediff_of (curtime scenario1_input) (lasttime scenario1_state) \<noteq> 0
   \<and> loop_iteration default_config scenario1_input scenario1_state = Inr scenario1_result
   \<and> io_log scenario1_result
       = io_log scenario1_state
         @ [Outb 0x6b 0x0a35, Outb 255 0x0a36, Outb 0x73 0x0a35, Outb 255 0x0a36, Sleep 10]"
proof -
  have dt: "timediff_of (curtime scenario1_input) (lasttime scenario1_state) \<noteq> 0"
    by (simp add: timediff_of_def scenario1_input_def scenario1_state_def startup_def Let_def)
  have e: "ecbar scenario1_state = 0x0a30" "pwm scenario1_result = 255"
    "interval default_config = 10"
    by (simp_all add: scenario1_state_def scenario1_result_def startup_def default_config_def
          Let_def)
  show ?thesis
    using C9_both_channels_same_value [where inp = scenario1_input
        and s = scenario1_state and cfg = default_config and s' = scenario1_result]
      dt scenario1_iteration
    by (simp add: e)
qed

text \<open>
  C10. From every state the program reaches, the next iteration never divides by a zero
  \<open>cputemp_count\<close>; whenever it computes the average, the count is at least 1 and the
  average is \<open>cputemp_sum / cputemp_count\<close>.
\<close>

theorem C10_average_never_divides_by_zero:
  assumes "run_main cfg hi lo now inps = Inr s"
  shows "loop_iteration cfg inp s \<noteq> Inl DivisionByZero
         \<and> (\<forall>out s'. cpu_probe inp = Output out \<and> loop_iteration cfg inp s = Inr s'
               \<longrightarrow> 1 \<le> cputemp_count (cpu s')
                   \<and> cpu_avg_temp (cpu s') = cputemp_sum (cpu s') sdiv cputemp_count (cpu s'))"
proof -
  obtain xs where xs: "insert_all cfg xs (rolling_init cfg) = Inr (cpu s)"
    using run_main_cpu [OF assms] by blast
  have "loop_iteration cfg inp s \<noteq> Inl DivisionByZero"
  proof
    assume "loop_iteration cfg inp s = Inl DivisionByZero"
    then obtain x where "rolling_insert cfg x (cpu s) = Inl DivisionByZero"
      using loop_iteration_fault by blast
    then show False using rolling_insert_no_division_by_zero [OF xs, of x] by simp
  qed
  moreover have "1 \<le> cputemp_count (cpu s')
      \<and> cpu_avg_temp (cpu s') = cputemp_sum (cpu s') sdiv cputemp_count (cpu s')"
    if "cpu_probe inp = Output out" and "loop_iteration cfg inp s = Inr s'" for out s'
    using loop_iteration_insert [OF that(2) that(1)]
      rolling_insert_no_division_by_zero [OF xs] rolling_insert_average
    by blast
  ultimately show ?thesis by blast
qed

theorem C10_average_never_divides_by_zero_witness:
  "run_main default_config 0x0a 0x30 \<lparr> tv_sec = 100, tv_nsec = 0 \<rparr> [] = Inr scenario1_state
   \<and> cpu_probe scenario1_input = Output (''50'' @ [newline])
   \<and> loop_iteration default_config scenario1_input scenario1_state = Inr scenario1_result
   \<and> loop_iteration default_config scenario1_input scenario1_state \<noteq> Inl DivisionByZero
   \<and> 1 \<le> cputemp_count (cpu scenario1_result)
   \<and> cpu_avg_temp (cpu scenario1_result)
       = cputemp_sum (cpu scenario1_result) sdiv cputemp_count (cpu scenario1_result)"
proof -
  have p: "cpu_probe scenario1_input = Output (''50'' @ [newline])"
    by (simp add: scenario1_input_def)
  show ?thesis
    using C10_average_never_divides_by_zero [OF scenario1_start, of scenario1_input]
      scenario1_start scenario1_iteration p
    by blast
qed

end
